theory Spec2Isabelle
  imports Main "HOL-Library.AList"
begin

section \<open>JavaScript values and plain objects\<close>

text \<open>
  The values that travel between the caller, \<open>building.js\<close> and the database driver.
  Numbers are kept to the integers and the value NaN; arrays and nested objects are
  references, compared by identity as JavaScript does, and so are the built-in objects
  a plain object inherits from \<open>Object.prototype\<close>.
\<close>

datatype jsval =
    JUndefined
  | JNull
  | JBool bool
  | JNum int
  | JNaN
  | JStr string
  | JRef nat
  | JBuiltin string

text \<open>\<open>a !== b\<close>: no coercion; NaN differs from every value, itself included.\<close>

definition strict_neq :: "jsval \<Rightarrow> jsval \<Rightarrow> bool" where
  "strict_neq a b = (a \<noteq> b \<or> a = JNaN)"

text \<open>
  A plain object is the list of its own properties in insertion order; a JavaScript
  object never holds one key twice (\<open>wf_obj\<close>).
\<close>

type_synonym obj = "(string \<times> jsval) list"

definition wf_obj :: "obj \<Rightarrow> bool" where
  "wf_obj ob = distinct (map fst ob)"

definition keys :: "obj \<Rightarrow> string set" where
  "keys ob = fst ` set ob"

text \<open>
  What every plain object inherits: the properties of \<open>Object.prototype\<close>. The
  accessor \<open>__proto__\<close> reads as the prototype itself.
\<close>

definition Object_prototype :: obj where
  "Object_prototype =
     [(''constructor'', JBuiltin ''Object''),
      (''__defineGetter__'', JBuiltin ''Object.prototype.__defineGetter__''),
      (''__defineSetter__'', JBuiltin ''Object.prototype.__defineSetter__''),
      (''hasOwnProperty'', JBuiltin ''Object.prototype.hasOwnProperty''),
      (''__lookupGetter__'', JBuiltin ''Object.prototype.__lookupGetter__''),
      (''__lookupSetter__'', JBuiltin ''Object.prototype.__lookupSetter__''),
      (''isPrototypeOf'', JBuiltin ''Object.prototype.isPrototypeOf''),
      (''propertyIsEnumerable'', JBuiltin ''Object.prototype.propertyIsEnumerable''),
      (''toString'', JBuiltin ''Object.prototype.toString''),
      (''valueOf'', JBuiltin ''Object.prototype.valueOf''),
      (''__proto__'', JBuiltin ''Object.prototype''),
      (''toLocaleString'', JBuiltin ''Object.prototype.toLocaleString'')]"

definition inherited :: "string \<Rightarrow> jsval" where
  "inherited key = (case map_of Object_prototype key of None \<Rightarrow> JUndefined | Some v \<Rightarrow> v)"

text \<open>
  \<open>ob[key]\<close>: an own property first, then the prototype; a property found in neither
  reads as \<open>undefined\<close>.
\<close>

definition get_prop :: "obj \<Rightarrow> string \<Rightarrow> jsval" where
  "get_prop ob key = (case map_of ob key of None \<Rightarrow> inherited key | Some v \<Rightarrow> v)"

text \<open>
  \<open>ob[key] = value\<close>: overwrites in place, or appends a new property. The key
  \<open>__proto__\<close> goes to the inherited setter and makes no own property (the prototype
  link it may change is not followed here).
\<close>

definition set_prop :: "obj \<Rightarrow> string \<Rightarrow> jsval \<Rightarrow> obj" where
  "set_prop ob key v = (if key = ''__proto__'' then ob else AList.update key v ob)"

text \<open>\<open>delete ob.key\<close>\<close>

definition delete_prop :: "obj \<Rightarrow> string \<Rightarrow> obj" where
  "delete_prop ob key = AList.delete key ob"

text \<open>\<open>Object.entries(ob)\<close>\<close>

definition entries :: "obj \<Rightarrow> (string \<times> jsval) list" where
  "entries ob = ob"

definition same_shape :: "obj \<Rightarrow> obj \<Rightarrow> bool" where
  "same_shape a b = (keys a = keys b)"

section \<open>Errors\<close>

text \<open>
  What a promise of \<open>building.js\<close> can reject with: an exception thrown by the
  JavaScript itself, a result of the wrong size for \<open>t.one\<close>, a statement the server
  rejects (its text, or a constraint), and any other failure of the store.
\<close>

datatype error =
    ReferenceError string
  | QueryResultError_noData
  | QueryResultError_multiple
  | PgSyntaxError
  | UniqueViolation
  | StoreFailure

section \<open>The patch engine: \<open>compare\<close>\<close>

text \<open>
  \<^verbatim>\<open>
  function compare(old_obj, new_obj, whitelist){
      reverse_patch = {}
      forward_patch = {}
      for (const [key, value] of Object.entries(new_obj)) {
          if (old_obj[key] !== value && whitelist.has(key)) {
              reverse_patch[key] = old_obj[key];
              forward_patch[key] = value;
          }
      }
      return [forward_patch, reverse_patch]
  }
  \<close>
  \<open>building.js\<close> is a module (it starts with \<open>import\<close> and ends with \<open>export\<close>), and
  module code is strict: an assignment to a name that no declaration in scope binds
  throws a \<open>ReferenceError\<close>, where sloppy code would create a global. The names in
  scope at the first line of \<open>compare\<close> are its parameters and the declarations of the
  module; the global object has no property \<open>reverse_patch\<close> or \<open>forward_patch\<close>.
\<close>

definition names_in_scope :: "string list" where
  "names_in_scope =
     [''old_obj'', ''new_obj'', ''whitelist'',
      ''db'', ''TransactionMode'', ''isolationLevel'', ''serializable'',
      ''queryBuildingsAtPoint'', ''queryBuildingsByReference'', ''getBuildingById'',
      ''saveBuilding'', ''likeBuilding'', ''BUILDING_FIELD_WHITELIST'', ''compare'']"

definition assign_name :: "string \<Rightarrow> error + unit" where
  "assign_name name =
     (if name \<in> set names_in_scope then Inr () else Inl (ReferenceError name))"

text \<open>The loop, threading the two accumulators.\<close>

fun compare_loop ::
  "obj \<Rightarrow> string set \<Rightarrow> (string \<times> jsval) list \<Rightarrow> obj \<times> obj \<Rightarrow> obj \<times> obj" where
  "compare_loop old_obj whitelist [] (forward_patch, reverse_patch) =
     (forward_patch, reverse_patch)"
| "compare_loop old_obj whitelist ((key, value) # rest) (forward_patch, reverse_patch) =
     (if strict_neq (get_prop old_obj key) value \<and> key \<in> whitelist
      then (let reverse_patch' = set_prop reverse_patch key (get_prop old_obj key);
                forward_patch' = set_prop forward_patch key value
            in compare_loop old_obj whitelist rest (forward_patch', reverse_patch'))
      else compare_loop old_obj whitelist rest (forward_patch, reverse_patch))"

text \<open>The statements of \<open>compare\<close> that follow the two assignments.\<close>

definition compare_body :: "obj \<Rightarrow> obj \<Rightarrow> string set \<Rightarrow> obj \<times> obj" where
  "compare_body old_obj new_obj whitelist =
     compare_loop old_obj whitelist (entries new_obj) ([], [])"

definition compare :: "obj \<Rightarrow> obj \<Rightarrow> string set \<Rightarrow> error + obj \<times> obj" where
  "compare old_obj new_obj whitelist =
     (case assign_name ''reverse_patch'' of
        Inl e \<Rightarrow> Inl e
      | Inr _ \<Rightarrow>
          (case assign_name ''forward_patch'' of
             Inl e \<Rightarrow> Inl e
           | Inr _ \<Rightarrow> Inr (compare_body old_obj new_obj whitelist)))"

definition BUILDING_FIELD_WHITELIST :: "string set" where
  "BUILDING_FIELD_WHITELIST = set [
     ''ref_toid'', ''ref_osm_id'',
     ''location_name'', ''location_number'', ''location_street'', ''location_line_two'',
     ''location_town'', ''location_postcode'', ''location_latitude'', ''location_longitude'',
     ''date_year'', ''date_lower'', ''date_upper'', ''date_source'',
     ''facade_year'', ''facade_upper'', ''facade_lower'', ''facade_source'',
     ''size_storeys_attic'', ''size_storeys_core'', ''size_storeys_basement'',
     ''size_height_apex'', ''size_floor_area_ground'', ''size_floor_area_total'',
     ''size_width_frontage'']"

section \<open>The store\<close>

text \<open>
  The tables \<open>buildings\<close>, \<open>logs\<close> and \<open>building_user_likes\<close>. A building row is kept
  as the object \<open>SELECT *\<close> returns for it, one property per column.
\<close>

record log_row =
  log_id :: int
  forward_patch :: obj
  reverse_patch :: "obj option"
  log_building_id :: jsval
  log_user_id :: jsval

text \<open>
  Modelled from the spec: the schema of the three tables, which is not among the
  sources. \<open>log_id\<close> is "a store-assigned sequence identifier", "monotonically
  increasing" (\<open>logs_log_id_seq\<close> holds the last value handed out), and
  \<open>building_user_likes\<close> holds the like facts as pairs (building, principal).
\<close>

record db =
  buildings :: "obj list"
  logs :: "log_row list"
  building_user_likes :: "(jsval \<times> jsval) list"
  logs_log_id_seq :: int

text \<open>
  A query runs against the store and resolves with a value or rejects with an error;
  \<open>then_q\<close> is the promise's \<open>.then\<close>: a rejection skips the continuation.
\<close>

type_synonym 'a query = "db \<Rightarrow> (error + 'a) \<times> db"

definition then_q :: "'a query \<Rightarrow> ('a \<Rightarrow> 'b query) \<Rightarrow> 'b query" where
  "then_q q f d = (case q d of (Inl e, d') \<Rightarrow> (Inl e, d') | (Inr v, d') \<Rightarrow> f v d')"

text \<open>
  Any statement may also be failed by the store for reasons of its own (a lost
  connection, a serialization failure): \<open>faults n\<close> says whether the \<open>n\<close>-th statement
  of the transaction is, \<open>BEGIN\<close> being statement 0.
\<close>

definition at :: "(nat \<Rightarrow> bool) \<Rightarrow> nat \<Rightarrow> 'a query \<Rightarrow> 'a query" where
  "at faults n q d = (if faults n then (Inl StoreFailure, d) else q d)"

text \<open>\<open>t.one\<close>: the statement must return exactly one row.\<close>

definition one :: "'a list \<Rightarrow> error + 'a" where
  "one rows = (case rows of
       [] \<Rightarrow> Inl QueryResultError_noData
     | [row] \<Rightarrow> Inr row
     | _ \<Rightarrow> Inl QueryResultError_multiple)"

text \<open>The value a row holds in a column, and \<open>SET column = value\<close> on a row.\<close>

definition column_value :: "obj \<Rightarrow> string \<Rightarrow> jsval" where
  "column_value row column = (case map_of row column of None \<Rightarrow> JNull | Some v \<Rightarrow> v)"

definition set_column :: "obj \<Rightarrow> string \<Rightarrow> jsval \<Rightarrow> obj" where
  "set_column row column v = AList.update column v row"

text \<open>SQL \<open>column = $n\<close>: never true of a null; the driver sends \<open>undefined\<close> as null.\<close>

definition sql_eq :: "jsval \<Rightarrow> jsval \<Rightarrow> bool" where
  "sql_eq column param = (column = param \<and> param \<noteq> JNull \<and> param \<noteq> JUndefined)"

text \<open>
  The driver hands a \<open>bigint\<close> to JavaScript as a string of decimal digits
  ("PostgreSQL bigint (64-bit) is handled as string in JavaScript").
\<close>

fun decimal :: "nat \<Rightarrow> string" where
  "decimal n =
     (if n < 10 then [''0123456789'' ! n]
      else decimal (n div 10) @ [''0123456789'' ! (n mod 10)])"

declare decimal.simps [simp del]

subsection \<open>Transactions\<close>

datatype isolationLevel = level_serializable | level_repeatableRead | level_readCommitted

record TransactionMode =
  tiLevel :: isolationLevel
  readOnly :: bool

text \<open>
  \<^verbatim>\<open>
  const serializable = new TransactionMode({
      tiLevel: isolationLevel.serializable,
      readOnly: false
  });
  \<close>
\<close>

definition serializable :: TransactionMode where
  "serializable = \<lparr>tiLevel = level_serializable, readOnly = False\<rparr>"

text \<open>
  \<open>db.tx(options, cb)\<close> belongs to the driver, pg-promise. It reads the transaction
  mode from the property \<open>mode\<close> of \<open>options\<close>; with no such property the transaction
  is opened by a plain \<open>BEGIN\<close>, in the default mode of the server (\<open>None\<close> below).
\<close>

type_synonym tx_options = "(string \<times> TransactionMode) list"

definition options_mode :: "tx_options \<Rightarrow> TransactionMode option" where
  "options_mode options = map_of options ''mode''"

text \<open>
  A rollback undoes every write to the tables. A sequence is not transactional: the
  identifiers handed out inside a transaction that is rolled back are not reused.
\<close>

definition rollback :: "db \<Rightarrow> db \<Rightarrow> db" where
  "rollback before failed = before\<lparr>logs_log_id_seq := logs_log_id_seq failed\<rparr>"

text \<open>
  \<open>db.tx\<close>: \<open>BEGIN\<close>, the callback, then \<open>COMMIT\<close> when the callback's promise
  resolves and \<open>ROLLBACK\<close> when it rejects. \<open>commit_no\<close> is the number of the
  \<open>COMMIT\<close> statement. The result carries the mode the transaction was opened with.
\<close>

definition tx ::
  "tx_options \<Rightarrow> (nat \<Rightarrow> bool) \<Rightarrow> nat \<Rightarrow> 'a query \<Rightarrow> db
     \<Rightarrow> (error + 'a) \<times> db \<times> TransactionMode option" where
  "tx options faults commit_no cb d =
     (if faults 0 then (Inl StoreFailure, d, options_mode options)
      else (case cb d of
          (Inl e, d') \<Rightarrow> (Inl e, rollback d d', options_mode options)
        | (Inr v, d') \<Rightarrow>
            if faults commit_no then (Inl StoreFailure, rollback d d', options_mode options)
            else (Inr v, d', options_mode options)))"

subsection \<open>The statements\<close>

text \<open>
  \<^verbatim>\<open>SELECT * FOR UPDATE FROM buildings WHERE building_id = $1 and revision_id = $2;\<close>

  The server's grammar takes the locking clause of a \<open>SELECT\<close> after the \<open>FROM\<close> and
  \<open>WHERE\<close> clauses; a statement with the clauses in another order is rejected when it
  is parsed, before any row is read.
\<close>

datatype sql_clause = SELECT_list | FROM_clause | WHERE_clause | FOR_UPDATE

fun select_accepted :: "sql_clause list \<Rightarrow> bool" where
  "select_accepted [SELECT_list, FROM_clause] = True"
| "select_accepted [SELECT_list, FROM_clause, WHERE_clause] = True"
| "select_accepted [SELECT_list, FROM_clause, FOR_UPDATE] = True"
| "select_accepted [SELECT_list, FROM_clause, WHERE_clause, FOR_UPDATE] = True"
| "select_accepted _ = False"

definition is_building_at :: "jsval \<Rightarrow> jsval \<Rightarrow> obj \<Rightarrow> bool" where
  "is_building_at building_id revision_id row =
     (sql_eq (column_value row ''building_id'') building_id
      \<and> sql_eq (column_value row ''revision_id'') revision_id)"

definition select_building_for_update :: "jsval \<Rightarrow> jsval \<Rightarrow> obj query" where
  "select_building_for_update building_id revision_id d =
     (if select_accepted [SELECT_list, FOR_UPDATE, FROM_clause, WHERE_clause]
      then (one (filter (is_building_at building_id revision_id) (buildings d)), d)
      else (Inl PgSyntaxError, d))"

text \<open>
  \<^verbatim>\<open>INSERT INTO logs (forward_patch, reverse_patch, building_id, user_id)
  VALUES ($1:jsonb, $2:jsonb, $3, $4) RETURNING log_id\<close>
  and, from \<open>likeBuilding\<close>, the same statement without \<open>reverse_patch\<close>.

  The driver formats a variable \<open>$n:filter\<close> for the filters it knows. \<open>jsonb\<close> is
  not one of them: the driver takes \<open>$1:json\<close>, and the \<open>b\<close> stays in the text behind
  the quoted value, which the server rejects when it parses the statement. Were the
  filter known, the new row would take the next value of the sequence as its
  \<open>log_id\<close>.
\<close>

definition formatting_filters :: "string list" where
  "formatting_filters = [''raw'', ''alias'', ''name'', ''json'', ''csv'', ''list'', ''value'']"

definition insert_log :: "obj \<Rightarrow> obj option \<Rightarrow> jsval \<Rightarrow> jsval \<Rightarrow> obj query" where
  "insert_log forward reverse building_id user_id d =
     (if ''jsonb'' \<in> set formatting_filters
      then (let n = logs_log_id_seq d + 1;
                entry = \<lparr>log_id = n, forward_patch = forward, reverse_patch = reverse,
                         log_building_id = building_id, log_user_id = user_id\<rparr>
            in (one [[(''log_id'', JNum n)]],
                d\<lparr>logs := logs d @ [entry], logs_log_id_seq := n\<rparr>))
      else (Inl PgSyntaxError, d))"

text \<open>
  \<^verbatim>\<open>UPDATE buildings SET revision_id = $1, $2:raw
  WHERE building_id = $3 AND revision_id = $4 RETURNING *\<close>
  with \<open>[revision.log_id, sets, building_id, previous_revision_id]\<close>, where
  \<open>sets = db.$config.pgp.helpers.sets(forward)\<close> is one assignment per property of
  the patch. For the empty patch \<open>sets\<close> is the empty string and the text reads
  \<open>SET revision_id = $1, WHERE\<close>, which the server rejects when it parses it.
\<close>

definition assign_sets :: "obj \<Rightarrow> obj \<Rightarrow> obj" where
  "assign_sets row patch = fold (\<lambda>(column, v) r. set_column r column v) (entries patch) row"

definition save_row :: "jsval \<Rightarrow> obj \<Rightarrow> obj \<Rightarrow> obj" where
  "save_row new_revision_id forward row =
     assign_sets (set_column row ''revision_id'' new_revision_id) forward"

definition update_building :: "jsval \<Rightarrow> obj \<Rightarrow> jsval \<Rightarrow> jsval \<Rightarrow> obj query" where
  "update_building new_revision_id forward building_id previous_revision_id d =
     (if entries forward = [] then (Inl PgSyntaxError, d)
      else (one (map (save_row new_revision_id forward)
                   (filter (is_building_at building_id previous_revision_id) (buildings d))),
            d\<lparr>buildings :=
                 map (\<lambda>row. if is_building_at building_id previous_revision_id row
                             then save_row new_revision_id forward row else row)
                     (buildings d)\<rparr>))"

text \<open>
  Modelled from the spec: the "uniqueness constraint" of \<open>building_user_likes\<close>, by
  which the store rejects "a duplicate like from the same principal for the same
  record" (the schema is not among the sources). The statement is
  \<^verbatim>\<open>INSERT INTO building_user_likes ( building_id, user_id ) VALUES ($1, $2);\<close>
\<close>

definition insert_like :: "jsval \<Rightarrow> jsval \<Rightarrow> unit query" where
  "insert_like building_id user_id d =
     (if (building_id, user_id) \<in> set (building_user_likes d) then (Inl UniqueViolation, d)
      else (Inr (), d\<lparr>building_user_likes := building_user_likes d @ [(building_id, user_id)]\<rparr>))"

text \<open>
  \<^verbatim>\<open>SELECT count(*) as likes FROM building_user_likes WHERE building_id = $1;\<close>
  \<open>count(*)\<close> is a \<open>bigint\<close>, so \<open>likes\<close> reaches the code as a string.
\<close>

definition count_likes :: "jsval \<Rightarrow> obj query" where
  "count_likes building_id d =
     (one [[(''likes'',
             JStr (decimal (length (filter (\<lambda>(b, u). sql_eq b building_id)
                                      (building_user_likes d)))))]],
      d)"

text \<open>
  \<^verbatim>\<open>UPDATE buildings SET revision_id = $1, likes_total = $2
  WHERE building_id = $3 RETURNING *\<close>
\<close>

definition like_row :: "jsval \<Rightarrow> jsval \<Rightarrow> obj \<Rightarrow> obj" where
  "like_row new_revision_id likes row =
     set_column (set_column row ''revision_id'' new_revision_id) ''likes_total'' likes"

definition update_likes :: "jsval \<Rightarrow> jsval \<Rightarrow> jsval \<Rightarrow> obj query" where
  "update_likes new_revision_id likes building_id d =
     (one (map (like_row new_revision_id likes)
             (filter (\<lambda>row. sql_eq (column_value row ''building_id'') building_id) (buildings d))),
      d\<lparr>buildings :=
           map (\<lambda>row. if sql_eq (column_value row ''building_id'') building_id
                       then like_row new_revision_id likes row else row) (buildings d)\<rparr>)"

section \<open>\<open>saveBuilding\<close> and \<open>likeBuilding\<close>\<close>

text \<open>
  What a call leaves behind: the value its promise resolves with (\<open>None\<close> is
  \<open>undefined\<close>), the store, the lines written by \<open>console.error\<close>, and the mode the
  transaction was opened with.
\<close>

record outcome =
  returned :: "obj option"
  store :: db
  console :: "error list"
  tx_mode :: "TransactionMode option"

text \<open>\<open>saveBuilding\<close> also works on the caller's \<open>building\<close> object itself.\<close>

record save_outcome = outcome +
  argument :: obj

text \<open>
  \<^verbatim>\<open>
  }).catch(function(error){
      // TODO report transaction error as 'Need to re-fetch building before update'
      console.error(error);
      return undefined;
  });
  \<close>
\<close>

definition catch :: "(error + obj) \<times> db \<times> TransactionMode option \<Rightarrow> outcome" where
  "catch r = (case r of
       (Inl e, d, m) \<Rightarrow> \<lparr>returned = None, store = d, console = [e], tx_mode = m\<rparr>
     | (Inr row, d, m) \<Rightarrow> \<lparr>returned = Some row, store = d, console = [], tx_mode = m\<rparr>)"

text \<open>
  The callback of \<open>saveBuilding\<close>'s transaction: statements 1 to 3. An exception
  thrown inside a \<open>.then\<close> callback rejects the promise.
\<close>

definition save_transaction ::
  "(nat \<Rightarrow> bool) \<Rightarrow> jsval \<Rightarrow> jsval \<Rightarrow> obj \<Rightarrow> jsval \<Rightarrow> obj query" where
  "save_transaction faults building_id previous_revision_id building user_id =
     then_q (at faults 1 (select_building_for_update building_id previous_revision_id))
       (\<lambda>old_building d.
          case compare old_building building BUILDING_FIELD_WHITELIST of
            Inl e \<Rightarrow> (Inl e, d)
          | Inr patches \<Rightarrow>
              (let forward = fst patches;
                   reverse = snd patches
               in then_q (at faults 2 (insert_log forward (Some reverse) building_id user_id))
                    (\<lambda>revision.
                       at faults 3 (update_building (get_prop revision ''log_id'') forward
                                      building_id previous_revision_id)) d))"

definition saveBuilding :: "(nat \<Rightarrow> bool) \<Rightarrow> db \<Rightarrow> jsval \<Rightarrow> obj \<Rightarrow> jsval \<Rightarrow> save_outcome" where
  "saveBuilding faults d building_id building user_id =
     (let previous_revision_id = get_prop building ''revision_id'';
          building1 = delete_prop building ''building_id'';
          building2 = delete_prop building1 ''revision_id'';
          building3 = delete_prop building2 ''geometry_id'';
          out = catch (tx [] faults 4
                         (save_transaction faults building_id previous_revision_id building3 user_id) d)
      in \<lparr>returned = returned out, store = store out, console = console out,
          tx_mode = tx_mode out, argument = building3\<rparr>)"

text \<open>
  The callback of \<open>likeBuilding\<close>'s transaction: statements 1 to 4. The call is
  \<open>db.tx({serializable}, t => ...)\<close>: the options object has the one property
  \<open>serializable\<close>.
\<close>

definition like_transaction :: "(nat \<Rightarrow> bool) \<Rightarrow> jsval \<Rightarrow> jsval \<Rightarrow> obj query" where
  "like_transaction faults building_id user_id =
     then_q (at faults 1 (insert_like building_id user_id))
       (\<lambda>_. then_q (at faults 2 (count_likes building_id))
          (\<lambda>building.
             then_q (at faults 3 (insert_log [(''likes_total'', get_prop building ''likes'')] None
                                    building_id user_id))
               (\<lambda>revision.
                  at faults 4 (update_likes (get_prop revision ''log_id'')
                                 (get_prop building ''likes'') building_id))))"

definition likeBuilding :: "(nat \<Rightarrow> bool) \<Rightarrow> db \<Rightarrow> jsval \<Rightarrow> jsval \<Rightarrow> outcome" where
  "likeBuilding faults d building_id user_id =
     catch (tx [(''serializable'', serializable)] faults 5
              (like_transaction faults building_id user_id) d)"

section \<open>Auxiliary definitions\<close>

text \<open>The test of the loop body of \<open>compare\<close>, as a predicate on an entry of \<open>new_obj\<close>.\<close>

definition changed :: "obj \<Rightarrow> string set \<Rightarrow> string \<times> jsval \<Rightarrow> bool" where
  "changed old_obj whitelist = (\<lambda>(key, v). strict_neq (get_prop old_obj key) v \<and> key \<in> whitelist)"

text \<open>A store that fails no statement for reasons of its own.\<close>

definition no_faults :: "nat \<Rightarrow> bool" where
  "no_faults n = False"

text \<open>
  The scenario of the specification: the record at revision 5 with three storeys, one
  like on it, and the log sequence at 5.
\<close>

definition scenario_db :: db where
  "scenario_db =
     \<lparr>buildings = [[(''building_id'', JNum 1), (''revision_id'', JNum 5), (''geometry_id'', JNum 9),
                     (''size_storeys_core'', JNum 3), (''likes_total'', JNum 1)]],
      logs = [],
      building_user_likes = [(JNum 1, JNum 7)],
      logs_log_id_seq = 5\<rparr>"

text \<open>Caller A read revision 5 and proposes four storeys.\<close>

definition scenario_edit :: obj where
  "scenario_edit = [(''building_id'', JNum 1), (''revision_id'', JNum 5), (''geometry_id'', JNum 9),
                    (''size_storeys_core'', JNum 4)]"

text \<open>A caller that still holds revision 4 proposes five storeys.\<close>

definition scenario_stale_edit :: obj where
  "scenario_stale_edit = [(''building_id'', JNum 1), (''revision_id'', JNum 4),
                          (''size_storeys_core'', JNum 5)]"

text \<open>The same record after another caller's edit has moved it to revision 6.\<close>

definition scenario_drifted_db :: db where
  "scenario_drifted_db =
     \<lparr>buildings = [[(''building_id'', JNum 1), (''revision_id'', JNum 6), (''geometry_id'', JNum 9),
                     (''size_storeys_core'', JNum 4), (''likes_total'', JNum 1)]],
      logs = [],
      building_user_likes = [(JNum 1, JNum 7)],
      logs_log_id_seq = 6\<rparr>"

text \<open>Two versions of one record, of the same shape.\<close>

definition scenario_old :: obj where
  "scenario_old = [(''building_id'', JNum 1), (''revision_id'', JNum 5), (''geometry_id'', JNum 9),
                   (''size_storeys_core'', JNum 3), (''location_name'', JStr ''Old Hall''),
                   (''likes_total'', JNum 2)]"

definition scenario_new :: obj where
  "scenario_new = [(''building_id'', JNum 1), (''revision_id'', JNum 5), (''geometry_id'', JNum 9),
                   (''size_storeys_core'', JNum 4), (''location_name'', JStr ''Old Hall''),
                   (''likes_total'', JNum 7)]"

section \<open>Reading and writing properties\<close>

lemma get_prop_own_first:
  "get_prop [(''constructor'', JNum 1)] ''constructor'' = JNum 1
   \<and> get_prop [] ''constructor'' = JBuiltin ''Object''
   \<and> get_prop [] ''size_storeys_core'' = JUndefined"
  by (simp add: get_prop_def inherited_def Object_prototype_def)

lemma set_prop_proto: "set_prop ob ''__proto__'' v = ob"
  by (simp add: set_prop_def)

lemma count_likes_is_a_string:
  "count_likes (JNum 1) scenario_db = (Inr [(''likes'', JStr ''1'')], scenario_db)"
  by code_simp

section \<open>What \<open>compare\<close> does\<close>

lemma compare_throws:
  "compare old_obj new_obj whitelist = Inl (ReferenceError ''reverse_patch'')"
  by (simp add: compare_def assign_name_def names_in_scope_def)

text \<open>
  Claim C3. The claim describes the two patches \<open>compare\<close> returns, and says that a
  comparison that finds no change returns two empty patches, "a valid no-op result, not
  an error". \<open>compare\<close> returns no patches: it throws a \<open>ReferenceError\<close> at its first
  statement, in the scenario where one whitelisted field changes and also when the old
  object is compared with itself.
\<close>

theorem compare_throws_on_scenario:
  "compare scenario_old scenario_new BUILDING_FIELD_WHITELIST = Inl (ReferenceError ''reverse_patch'')
   \<and> compare scenario_old scenario_old BUILDING_FIELD_WHITELIST
       = Inl (ReferenceError ''reverse_patch'')"
  by (simp add: compare_throws)



section \<open>The loop of \<open>compare\<close>\<close>

lemma proto_not_whitelisted: "''__proto__'' \<notin> BUILDING_FIELD_WHITELIST"
  by (simp add: BUILDING_FIELD_WHITELIST_def)

lemma compare_body_on_scenario:
  "compare_body scenario_old scenario_new BUILDING_FIELD_WHITELIST =
     ([(''size_storeys_core'', JNum 4)], [(''size_storeys_core'', JNum 3)])"
  by code_simp

lemma set_prop_fresh:
  "key \<noteq> ''__proto__'' \<Longrightarrow> key \<notin> fst ` set ob \<Longrightarrow> set_prop ob key v = ob @ [(key, v)]"
  unfolding set_prop_def by (induction ob) auto

lemma compare_loop_filter:
  "''__proto__'' \<notin> wl \<Longrightarrow> distinct (map fst es) \<Longrightarrow> fst ` set es \<inter> fst ` set fwd = {} \<Longrightarrow>
   fst ` set es \<inter> fst ` set rvs = {} \<Longrightarrow>
   compare_loop old_obj wl es (fwd, rvs) =
     (fwd @ filter (changed old_obj wl) es,
      rvs @ map (\<lambda>(key, v). (key, get_prop old_obj key)) (filter (changed old_obj wl) es))"
proof (induction es arbitrary: fwd rvs)
  case Nil
  then show ?case by simp
next
  case (Cons e es)
  obtain key v where e: "e = (key, v)" by (cases e)
  from Cons.prems e have fresh: "key \<notin> fst ` set fwd" "key \<notin> fst ` set rvs"
    and d: "distinct (map fst es)" and nk: "key \<notin> fst ` set es"
    and dj: "fst ` set es \<inter> fst ` set fwd = {}" "fst ` set es \<inter> fst ` set rvs = {}"
    by auto
  note pw = Cons.prems(1)
  show ?case
  proof (cases "changed old_obj wl (key, v)")
    case True
    have a: "fst ` set es \<inter> fst ` set (fwd @ [(key, v)]) = {}" using dj nk by auto
    have b: "fst ` set es \<inter> fst ` set (rvs @ [(key, get_prop old_obj key)]) = {}" using dj nk by auto
    from True have c: "strict_neq (get_prop old_obj key) v \<and> key \<in> wl" by (simp add: changed_def)
    with pw have np: "key \<noteq> ''__proto__''" by auto
    from c have "compare_loop old_obj wl (e # es) (fwd, rvs) =
        compare_loop old_obj wl es (fwd @ [(key, v)], rvs @ [(key, get_prop old_obj key)])"
      by (simp add: e set_prop_fresh[OF np fresh(1)] set_prop_fresh[OF np fresh(2)])
    also note Cons.IH[OF pw d a b]
    finally show ?thesis using True by (simp add: e)
  next
    case False
    then have c: "\<not> (strict_neq (get_prop old_obj key) v \<and> key \<in> wl)" by (simp add: changed_def)
    from c have "compare_loop old_obj wl (e # es) (fwd, rvs) = compare_loop old_obj wl es (fwd, rvs)"
      by (auto simp: e)
    also note Cons.IH[OF pw d dj]
    finally show ?thesis using False by (simp add: e)
  qed
qed

lemma compare_body_filter:
  assumes "''__proto__'' \<notin> wl" and "wf_obj new_obj"
  shows "compare_body old_obj new_obj wl =
     (filter (changed old_obj wl) new_obj,
      map (\<lambda>(key, v). (key, get_prop old_obj key)) (filter (changed old_obj wl) new_obj))"
  using compare_loop_filter[of wl new_obj "[]" "[]" old_obj] assms
  by (simp add: compare_body_def entries_def wf_obj_def)

lemma get_prop_mem: "wf_obj ob \<Longrightarrow> (key, v) \<in> set ob \<Longrightarrow> get_prop ob key = v"
  by (simp add: get_prop_def wf_obj_def)

lemma get_prop_absent: "key \<notin> keys ob \<Longrightarrow> get_prop ob key = inherited key"
proof -
  assume "key \<notin> keys ob"
  then have "map_of ob key = None" by (simp add: keys_def map_of_eq_None_iff)
  then show ?thesis by (simp add: get_prop_def)
qed

lemma keys_forward:
  assumes "''__proto__'' \<notin> wl" and "wf_obj new_obj"
  shows "key \<in> keys (fst (compare_body old_obj new_obj wl)) \<longleftrightarrow>
     key \<in> wl \<and> key \<in> keys new_obj \<and> strict_neq (get_prop old_obj key) (get_prop new_obj key)"
  using assms by (force simp: compare_body_filter keys_def changed_def get_prop_mem)

lemma keys_reverse:
  assumes "''__proto__'' \<notin> wl" and "wf_obj new_obj"
  shows "keys (snd (compare_body old_obj new_obj wl)) = keys (fst (compare_body old_obj new_obj wl))"
  using assms by (force simp: compare_body_filter keys_def image_iff)

lemma wf_forward:
  "''__proto__'' \<notin> wl \<Longrightarrow> wf_obj new_obj \<Longrightarrow> wf_obj (fst (compare_body old_obj new_obj wl))"
  by (simp add: compare_body_filter wf_obj_def distinct_map_filter)

lemma wf_reverse:
  "''__proto__'' \<notin> wl \<Longrightarrow> wf_obj new_obj \<Longrightarrow> wf_obj (snd (compare_body old_obj new_obj wl))"
proof -
  assume p: "''__proto__'' \<notin> wl" and w: "wf_obj new_obj"
  have "map fst (map (\<lambda>(key, v). (key, get_prop old_obj key)) xs) = map fst xs" for xs :: obj
    by (induction xs) auto
  then have "map fst (snd (compare_body old_obj new_obj wl)) = map fst (fst (compare_body old_obj new_obj wl))"
    by (simp only: compare_body_filter[OF p w] fst_conv snd_conv)
  then show ?thesis using wf_forward[OF p w, of old_obj] by (simp only: wf_obj_def)
qed

lemma forward_value:
  assumes "''__proto__'' \<notin> wl" and "wf_obj new_obj"
    and "key \<in> keys (fst (compare_body old_obj new_obj wl))"
  shows "get_prop (fst (compare_body old_obj new_obj wl)) key = get_prop new_obj key"
proof -
  from assms(3) obtain v where m: "(key, v) \<in> set (fst (compare_body old_obj new_obj wl))"
    by (auto simp: keys_def)
  then have "(key, v) \<in> set new_obj" using assms(1,2) by (simp add: compare_body_filter)
  then have "get_prop new_obj key = v" using assms(2) by (rule get_prop_mem[rotated])
  moreover have "get_prop (fst (compare_body old_obj new_obj wl)) key = v"
    using get_prop_mem[OF wf_forward[OF assms(1,2)] m] .
  ultimately show ?thesis by simp
qed

lemma reverse_value:
  assumes "''__proto__'' \<notin> wl" and "wf_obj new_obj"
    and "key \<in> keys (snd (compare_body old_obj new_obj wl))"
  shows "get_prop (snd (compare_body old_obj new_obj wl)) key = get_prop old_obj key"
proof -
  from assms(3) obtain v where m: "(key, v) \<in> set (snd (compare_body old_obj new_obj wl))"
    by (auto simp: keys_def)
  then have "v = get_prop old_obj key" using assms(1,2) by (auto simp: compare_body_filter)
  moreover have "get_prop (snd (compare_body old_obj new_obj wl)) key = v"
    using get_prop_mem[OF wf_reverse[OF assms(1,2)] m] .
  ultimately show ?thesis by simp
qed

lemma keys_empty: "keys ob = {} \<longleftrightarrow> ob = []"
  by (simp add: keys_def)

text \<open>
  Had the two accumulators been declared, the loop would return what the
  specification asks of the patch engine (for a whitelist without \<open>__proto__\<close>).
\<close>

lemma compare_body_whitelisted_changes:
  assumes "''__proto__'' \<notin> wl" and "wf_obj new_obj"
  shows "keys (fst (compare_body old_obj new_obj wl)) \<subseteq> wl \<inter> keys new_obj
       \<and> keys (snd (compare_body old_obj new_obj wl)) = keys (fst (compare_body old_obj new_obj wl))
       \<and> (\<forall>key. key \<in> keys (fst (compare_body old_obj new_obj wl)) \<longleftrightarrow>
                 key \<in> wl \<and> key \<in> keys new_obj
                 \<and> strict_neq (get_prop old_obj key) (get_prop new_obj key))
       \<and> (\<forall>key \<in> keys (fst (compare_body old_obj new_obj wl)).
             get_prop (fst (compare_body old_obj new_obj wl)) key = get_prop new_obj key
           \<and> get_prop (snd (compare_body old_obj new_obj wl)) key = get_prop old_obj key)
       \<and> ((\<forall>key. \<not> (key \<in> wl \<and> key \<in> keys new_obj
                     \<and> strict_neq (get_prop old_obj key) (get_prop new_obj key)))
            \<longrightarrow> compare_body old_obj new_obj wl = ([], []))"
proof -
  let ?f = "fst (compare_body old_obj new_obj wl)" and ?r = "snd (compare_body old_obj new_obj wl)"
  have iff: "key \<in> keys ?f \<longleftrightarrow> key \<in> wl \<and> key \<in> keys new_obj
       \<and> strict_neq (get_prop old_obj key) (get_prop new_obj key)" for key
    by (rule keys_forward[OF assms])
  have sub: "keys ?f \<subseteq> wl \<inter> keys new_obj" using iff by blast
  have kr: "keys ?r = keys ?f" by (rule keys_reverse[OF assms])
  have vals: "\<forall>key \<in> keys ?f. get_prop ?f key = get_prop new_obj key
       \<and> get_prop ?r key = get_prop old_obj key"
    using forward_value[OF assms] reverse_value[OF assms] kr by blast
  have none: "(\<forall>key. \<not> (key \<in> wl \<and> key \<in> keys new_obj
       \<and> strict_neq (get_prop old_obj key) (get_prop new_obj key)))
     \<longrightarrow> compare_body old_obj new_obj wl = ([], [])"
  proof
    assume "\<forall>key. \<not> (key \<in> wl \<and> key \<in> keys new_obj
       \<and> strict_neq (get_prop old_obj key) (get_prop new_obj key))"
    then have "keys ?f = {}" using iff by blast
    with kr have "?f = [] \<and> ?r = []" by (simp add: keys_empty)
    then show "compare_body old_obj new_obj wl = ([], [])" by (simp add: prod_eq_iff)
  qed
  from sub kr iff vals none show ?thesis by blast
qed

lemma strict_neq_sym: "strict_neq a b = strict_neq b a"
  by (auto simp: strict_neq_def)

lemma key_mem: "key \<in> keys ob \<Longrightarrow> \<exists>v. (key, v) \<in> set ob"
  by (auto simp: keys_def)

lemma swap_set:
  assumes pw: "''__proto__'' \<notin> wl"
    and wo: "wf_obj old_obj" and wn: "wf_obj new_obj" and sh: "same_shape old_obj new_obj"
  shows "set (fst (compare_body new_obj old_obj wl)) = set (snd (compare_body old_obj new_obj wl))"
proof (rule set_eqI)
  fix p :: "string \<times> jsval"
  obtain key v where p: "p = (key, v)" by (cases p)
  show "p \<in> set (fst (compare_body new_obj old_obj wl)) \<longleftrightarrow> p \<in> set (snd (compare_body old_obj new_obj wl))"
  proof
    assume "p \<in> set (fst (compare_body new_obj old_obj wl))"
    then have m: "(key, v) \<in> set old_obj" and c: "strict_neq (get_prop new_obj key) v" "key \<in> wl"
      using pw wo p by (auto simp: compare_body_filter changed_def)
    from m have "key \<in> keys new_obj" using sh by (force simp: same_shape_def keys_def)
    then obtain v' where m': "(key, v') \<in> set new_obj" using key_mem by blast
    have g: "get_prop old_obj key = v" "get_prop new_obj key = v'"
      using get_prop_mem[OF wo m] get_prop_mem[OF wn m'] by simp_all
    from c g have "changed old_obj wl (key, v')" by (simp add: changed_def strict_neq_sym)
    with m' g show "p \<in> set (snd (compare_body old_obj new_obj wl))"
      using pw wn p by (force simp: compare_body_filter)
  next
    assume "p \<in> set (snd (compare_body old_obj new_obj wl))"
    then obtain v' where m': "(key, v') \<in> set new_obj" and c: "changed old_obj wl (key, v')"
      and v: "v = get_prop old_obj key"
      using pw wn p by (auto simp: compare_body_filter)
    from m' have "key \<in> keys old_obj" using sh by (force simp: same_shape_def keys_def)
    then obtain u where m: "(key, u) \<in> set old_obj" using key_mem by blast
    have g: "get_prop old_obj key = u" "get_prop new_obj key = v'"
      using get_prop_mem[OF wo m] get_prop_mem[OF wn m'] by simp_all
    from c g v have "changed new_obj wl (key, v)" by (simp add: changed_def strict_neq_sym)
    with m g v show "p \<in> set (fst (compare_body new_obj old_obj wl))"
      using pw wo p by (simp add: compare_body_filter)
  qed
qed

lemma same_shape_sym: "same_shape a b \<Longrightarrow> same_shape b a"
  by (simp add: same_shape_def)

lemma swap_map_of:
  assumes pw: "''__proto__'' \<notin> wl"
    and wo: "wf_obj old_obj" and wn: "wf_obj new_obj" and sh: "same_shape old_obj new_obj"
  shows "map_of (fst (compare_body new_obj old_obj wl)) = map_of (snd (compare_body old_obj new_obj wl))"
  using swap_set[OF pw wo wn sh] wf_forward[OF pw wo, of new_obj] wf_reverse[OF pw wn, of old_obj]
  by (simp add: wf_obj_def map_of_inject_set)

lemma swap_aligned:
  "map fst xs = map fst ys \<Longrightarrow>
   \<forall>(key, v) \<in> set xs. get_prop old_obj key = v \<Longrightarrow>
   \<forall>(key, v) \<in> set ys. get_prop new_obj key = v \<Longrightarrow>
   filter (changed new_obj wl) xs =
     map (\<lambda>(key, v). (key, get_prop old_obj key)) (filter (changed old_obj wl) ys)"
proof (induction xs arbitrary: ys)
  case Nil
  then show ?case by simp
next
  case (Cons x xs)
  then obtain y ys' where ys: "ys = y # ys'" by (cases ys) auto
  obtain key v where x: "x = (key, v)" by (cases x)
  obtain key' v' where y: "y = (key', v')" by (cases y)
  from Cons.prems(1) ys x y have k: "key' = key" and t: "map fst xs = map fst ys'" by auto
  from Cons.prems(2) x have gx: "get_prop old_obj key = v"
    and rx: "\<forall>(key, v) \<in> set xs. get_prop old_obj key = v" by auto
  from Cons.prems(3) ys y k have gy: "get_prop new_obj key = v'"
    and ry: "\<forall>(key, v) \<in> set ys'. get_prop new_obj key = v" by auto
  have c: "changed new_obj wl (key, v) = changed old_obj wl (key, v')"
    using gx gy by (simp add: changed_def strict_neq_sym)
  show ?case using Cons.IH[OF t rx ry] c gx by (simp add: ys x y k)
qed

lemma wf_all_get: "wf_obj ob \<Longrightarrow> \<forall>(key, v) \<in> set ob. get_prop ob key = v"
  using get_prop_mem by auto

lemma swap_literal:
  assumes pw: "''__proto__'' \<notin> wl"
    and wo: "wf_obj old_obj" and wn: "wf_obj new_obj" and al: "map fst old_obj = map fst new_obj"
  shows "compare_body new_obj old_obj wl = prod.swap (compare_body old_obj new_obj wl)"
proof -
  have a: "fst (compare_body new_obj old_obj wl) = snd (compare_body old_obj new_obj wl)"
    using swap_aligned[OF al wf_all_get[OF wo] wf_all_get[OF wn], of wl] pw wo wn
    by (simp add: compare_body_filter)
  have b: "fst (compare_body old_obj new_obj wl) = snd (compare_body new_obj old_obj wl)"
    using swap_aligned[OF al[symmetric] wf_all_get[OF wn] wf_all_get[OF wo], of wl] pw wo wn
    by (simp add: compare_body_filter)
  show ?thesis using a b by (simp add: prod_eq_iff)
qed

lemma compare_body_swap:
  assumes "''__proto__'' \<notin> wl"
    and "wf_obj old_obj" and "wf_obj new_obj" and "same_shape old_obj new_obj"
  shows "map_of (fst (compare_body new_obj old_obj wl)) = map_of (snd (compare_body old_obj new_obj wl))
       \<and> map_of (snd (compare_body new_obj old_obj wl)) = map_of (fst (compare_body old_obj new_obj wl))
       \<and> (map fst old_obj = map fst new_obj \<longrightarrow>
            compare_body new_obj old_obj wl = prod.swap (compare_body old_obj new_obj wl))"
  using swap_map_of[OF assms]
    swap_map_of[OF assms(1) assms(3) assms(2) same_shape_sym[OF assms(4)]]
    swap_literal[OF assms(1) assms(2) assms(3)]
  by simp

lemma get_set_column:
  "get_prop (set_column ob key v) k = (if k = key then v else get_prop ob k)"
  by (simp add: get_prop_def set_column_def update_conv')

lemma column_value_set_column:
  "column_value (set_column ob key v) k = (if k = key then v else column_value ob k)"
  by (simp add: column_value_def set_column_def update_conv')

lemma assign_sets_Cons:
  "assign_sets row ((key, v) # patch) = assign_sets (set_column row key v) patch"
  by (simp add: assign_sets_def entries_def)

lemma get_assign_sets:
  "wf_obj patch \<Longrightarrow>
   get_prop (assign_sets row patch) k = (if k \<in> keys patch then get_prop patch k else get_prop row k)"
proof (induction patch arbitrary: row)
  case Nil
  then show ?case by (simp add: assign_sets_def entries_def keys_def)
next
  case (Cons p patch)
  obtain key v where p: "p = (key, v)" by (cases p)
  from Cons.prems p have w: "wf_obj patch" and nk: "key \<notin> keys patch"
    by (simp_all add: wf_obj_def keys_def)
  have kc: "keys ((key, v) # patch) = insert key (keys patch)" by (simp add: keys_def)
  have gc: "get_prop ((key, v) # patch) k = (if k = key then v else get_prop patch k)"
    by (simp add: get_prop_def)
  show ?case using nk by (auto simp: p assign_sets_Cons Cons.IH[OF w] get_set_column kc gc)
qed

lemma compare_body_forward_then_reverse:
  assumes pw: "''__proto__'' \<notin> wl" and wn: "wf_obj new_obj" and sh: "same_shape old_obj new_obj"
  shows "(\<forall>key \<in> wl. get_prop (assign_sets old_obj (fst (compare_body old_obj new_obj wl))) key
                       = get_prop new_obj key)
       \<and> (\<forall>key \<in> wl. get_prop (assign_sets (assign_sets old_obj (fst (compare_body old_obj new_obj wl)))
                                           (snd (compare_body old_obj new_obj wl))) key
                       = get_prop old_obj key)"
proof (intro conjI ballI)
  fix key assume k: "key \<in> wl"
  let ?f = "fst (compare_body old_obj new_obj wl)"
  show "get_prop (assign_sets old_obj ?f) key = get_prop new_obj key"
  proof (cases "key \<in> keys ?f")
    case True
    then show ?thesis using forward_value[OF pw wn True]
      by (simp add: get_assign_sets[OF wf_forward[OF pw wn]])
  next
    case False
    then have n: "\<not> (key \<in> keys new_obj \<and> strict_neq (get_prop old_obj key) (get_prop new_obj key))"
      using keys_forward[OF pw wn, of key old_obj] k by simp
    have "get_prop old_obj key = get_prop new_obj key"
    proof (cases "key \<in> keys new_obj")
      case True
      with n show ?thesis by (auto simp: strict_neq_def)
    next
      case False
      then have "key \<notin> keys old_obj" using sh by (simp add: same_shape_def)
      with False show ?thesis by (simp add: get_prop_absent)
    qed
    with False show ?thesis by (simp add: get_assign_sets[OF wf_forward[OF pw wn]])
  qed
next
  fix key assume k: "key \<in> wl"
  let ?f = "fst (compare_body old_obj new_obj wl)"
  let ?r = "snd (compare_body old_obj new_obj wl)"
  have kr: "keys ?r = keys ?f" by (rule keys_reverse[OF pw wn])
  show "get_prop (assign_sets (assign_sets old_obj ?f) ?r) key = get_prop old_obj key"
  proof (cases "key \<in> keys ?r")
    case True
    then show ?thesis using reverse_value[OF pw wn True]
      by (simp add: get_assign_sets[OF wf_reverse[OF pw wn]])
  next
    case False
    then show ?thesis using kr
      by (simp add: get_assign_sets[OF wf_reverse[OF pw wn]] get_assign_sets[OF wf_forward[OF pw wn]])
  qed
qed

section \<open>The statements\<close>

lemma select_building_for_update_rejected:
  "select_building_for_update building_id revision_id d = (Inl PgSyntaxError, d)"
  by (simp add: select_building_for_update_def)

lemma insert_log_rejected:
  "insert_log forward reverse building_id user_id d = (Inl PgSyntaxError, d)"
  by (simp add: insert_log_def formatting_filters_def)

lemma update_building_empty_patch:
  "update_building new_revision_id [] building_id previous_revision_id d = (Inl PgSyntaxError, d)"
  by (simp add: update_building_def entries_def)

text \<open>The \<open>UPDATE\<close> of \<open>saveBuilding\<close> writes to no row but those at the expected revision.\<close>

lemma update_building_other_rows:
  assumes "i < length (buildings d)"
    and "\<not> is_building_at building_id previous_revision_id (buildings d ! i)"
  shows "buildings (snd (update_building new_revision_id forward building_id previous_revision_id d)) ! i
         = buildings d ! i"
  using assms by (simp add: update_building_def)

lemma update_building_at_drifted_store:
  "update_building (JNum 7) [(''size_storeys_core'', JNum 5)] (JNum 1) (JNum 5) scenario_drifted_db
     = (Inl QueryResultError_noData, scenario_drifted_db)"
  by (simp add: update_building_def entries_def scenario_drifted_db_def is_building_at_def
      sql_eq_def column_value_def one_def)

lemma update_building_at_expected_revision:
  "update_building (JNum 6) [(''size_storeys_core'', JNum 4)] (JNum 1) (JNum 5) scenario_db
     = (Inr [(''building_id'', JNum 1), (''revision_id'', JNum 6), (''geometry_id'', JNum 9),
             (''size_storeys_core'', JNum 4), (''likes_total'', JNum 1)],
        scenario_db\<lparr>buildings :=
          [[(''building_id'', JNum 1), (''revision_id'', JNum 6), (''geometry_id'', JNum 9),
            (''size_storeys_core'', JNum 4), (''likes_total'', JNum 1)]]\<rparr>)"
  by (simp add: update_building_def entries_def scenario_db_def is_building_at_def
      sql_eq_def column_value_def one_def save_row_def assign_sets_def set_column_def)

section \<open>The transactions\<close>

lemma save_transaction_rejects:
  "save_transaction faults building_id previous_revision_id building user_id d =
     (Inl (if faults 1 then StoreFailure else PgSyntaxError), d)"
  by (simp add: save_transaction_def then_q_def at_def select_building_for_update_rejected)

text \<open>The ways a transaction ends, as \<open>catch\<close> reports them.\<close>

lemma catch_tx_cases:
  obtains (failed) e d' where
      "catch (tx options faults commit_no cb d) =
         \<lparr>returned = None, store = rollback d d', console = [e], tx_mode = options_mode options\<rparr>"
  | (committed) row d' where "cb d = (Inr row, d')"
      "catch (tx options faults commit_no cb d) =
         \<lparr>returned = Some row, store = d', console = [], tx_mode = options_mode options\<rparr>"
proof (cases "faults 0")
  case True
  then have "catch (tx options faults commit_no cb d) =
      \<lparr>returned = None, store = rollback d d, console = [StoreFailure], tx_mode = options_mode options\<rparr>"
    by (simp add: catch_def tx_def rollback_def)
  then show ?thesis by (rule failed)
next
  case False
  obtain res d' where cb: "cb d = (res, d')" by (cases "cb d")
  show ?thesis
  proof (cases res)
    case (Inl e)
    with False cb have "catch (tx options faults commit_no cb d) =
      \<lparr>returned = None, store = rollback d d', console = [e], tx_mode = options_mode options\<rparr>"
      by (simp add: catch_def tx_def)
    then show ?thesis by (rule failed)
  next
    case (Inr row)
    show ?thesis
    proof (cases "faults commit_no")
      case True
      with False cb Inr have "catch (tx options faults commit_no cb d) =
        \<lparr>returned = None, store = rollback d d', console = [StoreFailure], tx_mode = options_mode options\<rparr>"
        by (simp add: catch_def tx_def)
      then show ?thesis by (rule failed)
    next
      case c: False
      with False cb Inr have "catch (tx options faults commit_no cb d) =
        \<lparr>returned = Some row, store = d', console = [], tx_mode = options_mode options\<rparr>"
        by (simp add: catch_def tx_def)
      with cb Inr show ?thesis by (auto intro: committed)
    qed
  qed
qed

lemma saveBuilding_unfold:
  "saveBuilding faults d building_id building user_id =
     \<lparr>returned = returned (catch (tx [] faults 4
                  (save_transaction faults building_id (get_prop building ''revision_id'')
                     (delete_prop (delete_prop (delete_prop building ''building_id'') ''revision_id'')
                        ''geometry_id'') user_id) d)),
      store = store (catch (tx [] faults 4
                  (save_transaction faults building_id (get_prop building ''revision_id'')
                     (delete_prop (delete_prop (delete_prop building ''building_id'') ''revision_id'')
                        ''geometry_id'') user_id) d)),
      console = console (catch (tx [] faults 4
                  (save_transaction faults building_id (get_prop building ''revision_id'')
                     (delete_prop (delete_prop (delete_prop building ''building_id'') ''revision_id'')
                        ''geometry_id'') user_id) d)),
      tx_mode = tx_mode (catch (tx [] faults 4
                  (save_transaction faults building_id (get_prop building ''revision_id'')
                     (delete_prop (delete_prop (delete_prop building ''building_id'') ''revision_id'')
                        ''geometry_id'') user_id) d)),
      argument = delete_prop (delete_prop (delete_prop building ''building_id'') ''revision_id'')
                        ''geometry_id''\<rparr>"
  by (simp add: saveBuilding_def Let_def)

lemma delete_three:
  "delete_prop (delete_prop (delete_prop ob k1) k2) k3 = filter (\<lambda>(key, v). key \<notin> {k1, k2, k3}) ob"
  by (induction ob) (auto simp: delete_prop_def)

text \<open>
  No call of \<open>saveBuilding\<close> resolves with a row, and none changes the store: the
  first statement of the transaction is rejected, by the store or by the parser.
\<close>

lemma saveBuilding_never_resolves:
  "returned (saveBuilding faults d building_id building user_id) = None
   \<and> store (saveBuilding faults d building_id building user_id) = d
   \<and> console (saveBuilding faults d building_id building user_id)
       = [if faults 0 \<or> faults 1 then StoreFailure else PgSyntaxError]"
  by (simp add: saveBuilding_unfold catch_def tx_def save_transaction_rejects rollback_def)

text \<open>
  Nor does any call of \<open>likeBuilding\<close>: the like is inserted and counted, the log
  entry is rejected, and the transaction is rolled back.
\<close>

lemma likeBuilding_never_resolves:
  "returned (likeBuilding faults d building_id user_id) = None
   \<and> store (likeBuilding faults d building_id user_id) = d"
  by (simp add: likeBuilding_def catch_def tx_def like_transaction_def then_q_def at_def
      insert_like_def count_likes_def one_def insert_log_rejected rollback_def)

text \<open>Whatever a transaction rejects with, the handler prints it and returns \<open>undefined\<close>.\<close>

lemma catch_rejection:
  "returned (catch (Inl e, d, m)) = None \<and> console (catch (Inl e, d, m)) = [e]"
  by (simp add: catch_def)

text \<open>
  Claim C1. The claim says a call whose expected revision matches no stored row returns
  a Conflict outcome that its caller can tell from a failure of the store. In the
  scenario, the call with the stale revision 4 and a call whose \<open>SELECT\<close> is failed by
  the store both resolve with \<open>undefined\<close>; the two errors differ only in what
  \<open>console.error\<close> printed.
\<close>

theorem saveBuilding_conflict_is_undefined:
  "returned (saveBuilding no_faults scenario_db (JNum 1) scenario_stale_edit (JNum 42)) = None
   \<and> console (saveBuilding no_faults scenario_db (JNum 1) scenario_stale_edit (JNum 42))
       = [PgSyntaxError]
   \<and> returned (saveBuilding (\<lambda>n. n = 1) scenario_db (JNum 1) scenario_edit (JNum 42)) = None
   \<and> console (saveBuilding (\<lambda>n. n = 1) scenario_db (JNum 1) scenario_edit (JNum 42))
       = [StoreFailure]"
  by code_simp



text \<open>
  Claim C10. \<open>saveBuilding\<close> deletes the properties \<open>building_id\<close>, \<open>revision_id\<close> and
  \<open>geometry_id\<close> from the object its caller passed, whatever the state of the store
  and whether or not the transaction can even begin; the other properties stay, in
  their order.
\<close>

theorem saveBuilding_strips_argument:
  "argument (saveBuilding faults d building_id building user_id) =
     filter (\<lambda>(key, v). key \<notin> {''building_id'', ''revision_id'', ''geometry_id''}) building
   \<and> keys (argument (saveBuilding faults d building_id building user_id)) =
       keys building - {''building_id'', ''revision_id'', ''geometry_id''}"
proof -
  have a: "argument (saveBuilding faults d building_id building user_id) =
     filter (\<lambda>(key, v). key \<notin> {''building_id'', ''revision_id'', ''geometry_id''}) building"
    by (simp add: saveBuilding_unfold delete_three)
  show ?thesis unfolding a by (auto simp: keys_def)
qed

theorem saveBuilding_strips_argument_witness:
  "argument (saveBuilding no_faults scenario_db (JNum 1) scenario_edit (JNum 42)) =
     [(''size_storeys_core'', JNum 4)]"
  using saveBuilding_strips_argument[of no_faults scenario_db "JNum 1" scenario_edit "JNum 42"]
  by (simp add: scenario_edit_def)

text \<open>
  Claim C7. The claim says the transaction of \<open>likeBuilding\<close> is opened in the
  serializable read-write mode. The call passes the mode under the property name
  \<open>serializable\<close>, where the driver looks for \<open>mode\<close>: every \<open>likeBuilding\<close>
  transaction is opened with no mode at all, that is in the default mode of the server.
\<close>

theorem likeBuilding_mode_not_serializable:
  "tx_mode (likeBuilding faults d building_id user_id) = None
   \<and> tx_mode (likeBuilding faults d building_id user_id) \<noteq> Some serializable"
proof (cases rule: catch_tx_cases[of "[(''serializable'', serializable)]" faults 5
         "like_transaction faults building_id user_id" d])
  case (failed e d')
  then show ?thesis by (simp add: likeBuilding_def options_mode_def)
next
  case (committed row d')
  then show ?thesis by (simp add: likeBuilding_def options_mode_def)
qed

text \<open>A first like gets as far as the log entry.\<close>

lemma likeBuilding_first_like:
  "returned (likeBuilding no_faults scenario_db (JNum 1) (JNum 8)) = None
   \<and> console (likeBuilding no_faults scenario_db (JNum 1) (JNum 8)) = [PgSyntaxError]
   \<and> store (likeBuilding no_faults scenario_db (JNum 1) (JNum 8)) = scenario_db"
  by code_simp

text \<open>
  A like that is already recorded changes nothing in the store, whatever else fails.
\<close>

lemma likeBuilding_duplicate:
  assumes "(building_id, user_id) \<in> set (building_user_likes d)"
  shows "returned (likeBuilding faults d building_id user_id) = None
       \<and> store (likeBuilding faults d building_id user_id) = d"
  using assms
  by (simp add: likeBuilding_def catch_def tx_def like_transaction_def then_q_def at_def
      insert_like_def rollback_def)

text \<open>
  Claim C6. The claim says a second like by the same principal returns a distinct
  "already liked" error, appends no log entry and leaves the count unchanged. In the
  scenario user 7 already likes building 1: the second call leaves the store as it was,
  and resolves with \<open>undefined\<close>, as does the call of another user whose count
  statement is failed by the store.
\<close>

theorem likeBuilding_duplicate_is_undefined:
  "returned (likeBuilding no_faults scenario_db (JNum 1) (JNum 7)) = None
   \<and> console (likeBuilding no_faults scenario_db (JNum 1) (JNum 7)) = [UniqueViolation]
   \<and> store (likeBuilding no_faults scenario_db (JNum 1) (JNum 7)) = scenario_db
   \<and> returned (likeBuilding (\<lambda>n. n = 2) scenario_db (JNum 1) (JNum 8)) = None
   \<and> console (likeBuilding (\<lambda>n. n = 2) scenario_db (JNum 1) (JNum 8)) = [StoreFailure]"
  by code_simp

end
